theory Spec2Isabelle
  imports Complex_Main "HOL-Library.Multiset"
begin

section \<open>JavaScript values read from a parsed JSON body\<close>

text \<open>A property of a parsed JSON object is missing (\<open>undefined\<close> when
  read), \<open>null\<close>, or holds a value. Numbers are modelled as \<open>real\<close>:
  JSON has no NaN and no infinity.\<close>

datatype 'a js_field = Undefined | Null | Val 'a

text \<open>\<open>x ?? d\<close> and \<open>o?.f\<close> both treat \<open>undefined\<close>
  and \<open>null\<close> alike.\<close>

fun nullish :: "'a js_field \<Rightarrow> 'a option" where
  "nullish Undefined = None"
| "nullish Null = None"
| "nullish (Val v) = Some v"

definition coalesce :: "'a js_field \<Rightarrow> 'a \<Rightarrow> 'a" where
  "coalesce x d = (case nullish x of None \<Rightarrow> d | Some v \<Rightarrow> v)"

definition opt_chain :: "'o js_field \<Rightarrow> ('o \<Rightarrow> 'a js_field) \<Rightarrow> 'a js_field" where
  "opt_chain ob f = (case nullish ob of None \<Rightarrow> Undefined | Some v \<Rightarrow> f v)"

section \<open>claude-usage.ts: data model\<close>

text \<open>Raw API response window (snake case); the field \<open>utilization\<close> of the
  raw window is named \<open>raw_utilization\<close> here, the normalized window keeps the
  name.\<close>

record ApiUsageWindow =
  raw_utilization :: "real js_field"
  resets_at :: "string js_field"

record ClaudeUsageApiResponse =
  five_hour :: "ApiUsageWindow js_field"
  seven_day :: "ApiUsageWindow js_field"
  seven_day_opus :: "ApiUsageWindow js_field"
  seven_day_oauth_apps :: "ApiUsageWindow js_field"

text \<open>Normalized window: \<open>resetsAt\<close> is \<open>string | null\<close>, with
  \<open>None\<close> for \<open>null\<close>.\<close>

record UsageWindow =
  utilization :: real
  resetsAt :: "string option"

text \<open>\<open>sevenDayOpus\<close> is \<open>UsageWindow | undefined\<close>, with
  \<open>None\<close> for \<open>undefined\<close>.\<close>

record ClaudeUsageData =
  fiveHour :: UsageWindow
  sevenDay :: UsageWindow
  sevenDayOpus :: "UsageWindow option"

section \<open>claude-usage.ts: fetchClaudeUsage\<close>

text \<open>The object literal returned at the end of \<open>fetchClaudeUsage\<close>, for a
  body \<open>data\<close> that is a JSON object.\<close>

definition normalize_usage :: "ClaudeUsageApiResponse \<Rightarrow> ClaudeUsageData" where
  "normalize_usage data =
     \<lparr> fiveHour =
         \<lparr> utilization = coalesce (opt_chain (five_hour data) raw_utilization) 0,
           resetsAt = nullish (opt_chain (five_hour data) resets_at) \<rparr>,
       sevenDay =
         \<lparr> utilization = coalesce (opt_chain (seven_day data) raw_utilization) 0,
           resetsAt = nullish (opt_chain (seven_day data) resets_at) \<rparr>,
       sevenDayOpus =
         (case nullish (seven_day_opus data) of
            Some w \<Rightarrow> Some \<lparr> utilization = coalesce (raw_utilization w) 0,
                              resetsAt = nullish (resets_at w) \<rparr>
          | None \<Rightarrow> None) \<rparr>"

text \<open>What \<open>await response.json()\<close> can give: a rejection on a body that is
  not JSON, \<open>null\<close>, a JSON object, or another JSON value (number, string,
  boolean, array), none of which has a property \<open>five_hour\<close>,
  \<open>seven_day\<close> or \<open>seven_day_opus\<close>.\<close>

datatype json_body = MalformedJson | JsonNull | JsonObject ClaudeUsageApiResponse | JsonOther

text \<open>What \<open>await fetch(...)\<close> can give: a rejection (DNS, TLS, timeout), or
  a response with a status and a body.\<close>

datatype fetch_result = NetworkFailure | Response nat json_body

text \<open>\<open>response.ok\<close> of the Fetch API: the status is in the range 200 to
  299.\<close>

definition response_ok :: "nat \<Rightarrow> bool" where
  "response_ok status = (200 \<le> status \<and> status \<le> 299)"

datatype js_error =
    FetchRejected
  | UsageApiError nat
  | JsonSyntaxError
  | TypeErrorNull

datatype log_entry = ConsoleError string

definition no_properties :: ClaudeUsageApiResponse where
  "no_properties =
     \<lparr> five_hour = Undefined, seven_day = Undefined,
       seven_day_opus = Undefined, seven_day_oauth_apps = Undefined \<rparr>"

text \<open>The body of the \<open>try\<close> block: \<open>Inl\<close> is an exception
  thrown inside it, \<open>Inr\<close> the value of a \<open>return\<close>. Reading a
  property of \<open>null\<close> throws a TypeError.\<close>

fun fetch_try :: "fetch_result \<Rightarrow> js_error + ClaudeUsageData option" where
  "fetch_try NetworkFailure = Inl FetchRejected"
| "fetch_try (Response status body) =
     (if \<not> response_ok status then
        (if status = 403 \<or> status = 401 then Inr None
         else Inl (UsageApiError status))
      else
        (case body of
           MalformedJson \<Rightarrow> Inl JsonSyntaxError
         | JsonNull \<Rightarrow> Inl TypeErrorNull
         | JsonObject data \<Rightarrow> Inr (Some (normalize_usage data))
         | JsonOther \<Rightarrow> Inr (Some (normalize_usage no_properties))))"

text \<open>The whole function: the \<open>catch\<close> block logs with
  \<open>console.error\<close> and returns \<open>null\<close>. The result is the lines logged
  and the value the promise resolves to; the promise never rejects.\<close>

definition fetchClaudeUsage :: "fetch_result \<Rightarrow> log_entry list \<times> ClaudeUsageData option" where
  "fetchClaudeUsage r =
     (case fetch_try r of
        Inl e \<Rightarrow> ([ConsoleError ''[claude-usage] Failed to fetch usage:''], None)
      | Inr v \<Rightarrow> ([], v))"

section \<open>useClaudeUsage: the polling hook\<close>

text \<open>The hook's state: the three \<open>useState\<close> cells and the
  \<open>useRef\<close> cell of the source, together with the part of the runtime the hook
  acts on: the intervals that are armed (\<open>setInterval\<close> hands out positive
  handles, \<open>clearInterval\<close> disarms one), the number of calls of
  \<open>fetchUsage\<close> made so far, the number of them still awaiting the bridge, and the
  renderer's console.\<close>

record hook =
  usage :: "ClaudeUsageData option"
  isLoading :: bool
  isAvailable :: bool
  pollIntervalRef :: "nat option"
  timers :: "nat list"
  nextHandle :: nat
  fetchCalls :: nat
  inFlight :: nat
  console :: "log_entry list"

definition useClaudeUsage_init :: hook where
  "useClaudeUsage_init =
     \<lparr> usage = None, isLoading = True, isAvailable = False, pollIntervalRef = None,
       timers = [], nextHandle = 1, fetchCalls = 0, inFlight = 0, console = [] \<rparr>"

text \<open>What \<open>await window.electronAPI.getClaudeUsage()\<close> can give.\<close>

datatype bridge_result = Resolved "ClaudeUsageData option" | Rejected

text \<open>\<open>fetchUsage\<close> from the point where the awaited bridge call settles:
  the \<open>try\<close> branch, the \<open>catch\<close> branch, and \<open>finally\<close>.\<close>

definition fetchUsage :: "bridge_result \<Rightarrow> hook \<Rightarrow> hook" where
  "fetchUsage r s =
     (case r of
        Resolved data \<Rightarrow>
          s\<lparr> usage := data, isAvailable := (data \<noteq> None), isLoading := False \<rparr>
      | Rejected \<Rightarrow>
          s\<lparr> console := console s @ [ConsoleError ''[useClaudeUsage] Failed to fetch usage:''],
             usage := None, isAvailable := False, isLoading := False \<rparr>)"

text \<open>A call of \<open>fetchUsage\<close> up to its \<open>await\<close>.\<close>

definition call_fetchUsage :: "hook \<Rightarrow> hook" where
  "call_fetchUsage s = s\<lparr> fetchCalls := fetchCalls s + 1, inFlight := inFlight s + 1 \<rparr>"

definition refresh :: "hook \<Rightarrow> hook" where
  "refresh s = call_fetchUsage s"

text \<open>The effect's body (the poller's start): the initial fetch, then
  \<open>setInterval\<close>, whose handle overwrites the ref.\<close>

definition start :: "hook \<Rightarrow> hook" where
  "start s =
     (let s1 = call_fetchUsage s; h = nextHandle s1
      in s1\<lparr> timers := timers s1 @ [h], nextHandle := h + 1, pollIntervalRef := Some h \<rparr>)"

text \<open>The effect's cleanup (the poller's stop): a truthy handle in the ref is cleared.\<close>

definition stop :: "hook \<Rightarrow> hook" where
  "stop s =
     (case pollIntervalRef s of
        Some h \<Rightarrow>
          (if h \<noteq> 0 then s\<lparr> timers := removeAll h (timers s), pollIntervalRef := None \<rparr>
           else s)
      | None \<Rightarrow> s)"

text \<open>One poll interval elapses: every armed interval calls \<open>fetchUsage\<close>
  once.\<close>

definition tick :: "hook \<Rightarrow> hook" where
  "tick s = ((call_fetchUsage ^^ length (timers s)) s)"

text \<open>The bridge call of one of the fetches in flight settles.\<close>

definition settle :: "bridge_result \<Rightarrow> hook \<Rightarrow> hook" where
  "settle r s =
     (if inFlight s = 0 then s else fetchUsage r (s\<lparr> inFlight := inFlight s - 1 \<rparr>))"

datatype event = Start | Stop | Tick | Refresh | Settle bridge_result

fun step :: "hook \<Rightarrow> event \<Rightarrow> hook" where
  "step s Start = start s"
| "step s Stop = stop s"
| "step s Tick = tick s"
| "step s Refresh = refresh s"
| "step s (Settle r) = settle r s"

definition run :: "event list \<Rightarrow> hook \<Rightarrow> hook" where
  "run evs s = foldl step s evs"

text \<open>One fetch cycle of the poller whose network answer is \<open>r\<close>: the lines the
  fetcher logs, and the hook after \<open>fetchUsage\<close> has run to its end. The host bridge
  \<open>window.electronAPI.getClaudeUsage\<close>, which stands between the hook and the fetcher,
  is not part of the sources at hand: it is the parameter \<open>bridge\<close>, which gives the
  outcome of the awaited call for the value the fetcher resolves to.\<close>

definition poll_cycle ::
    "(ClaudeUsageData option \<Rightarrow> bridge_result) \<Rightarrow> fetch_result \<Rightarrow> hook \<Rightarrow> log_entry list \<times> hook" where
  "poll_cycle bridge r s =
     (fst (fetchClaudeUsage r), settle (bridge (snd (fetchClaudeUsage r))) (call_fetchUsage s))"

text \<open>Modelled from the spec: the host bridge proxies the fetcher's call through the host
  process, so the awaited call resolves to what \<open>fetchClaudeUsage\<close> resolves to.\<close>

definition getClaudeUsage :: "ClaudeUsageData option \<Rightarrow> bridge_result" where
  "getClaudeUsage data = Resolved data"

text \<open>The snapshot \<open>fetchUsage\<close> stores for a settled bridge call.\<close>

definition applied :: "bridge_result \<Rightarrow> ClaudeUsageData option" where
  "applied r = (case r of Resolved d \<Rightarrow> d | Rejected \<Rightarrow> None)"

text \<open>React around the hook. The component that calls the hook is mounted or not. The
  effect's only dependency is \<open>fetchUsage\<close>, which never changes, so React runs the
  effect's body when it mounts the component and the cleanup when it unmounts it. The hook has
  no check of its own that it is still active: \<open>fetchUsage\<close> calls the three setters
  whenever its awaited call settles. It is React that discards a state update made after the
  component was unmounted; what else \<open>fetchUsage\<close> does then (the line it logs on a
  rejection) still happens. Timers are the runtime's: an armed interval fires, and a kept
  \<open>refresh\<close> can be called, whether or not the component is mounted.\<close>

record component =
  mounted :: bool
  hookState :: hook


text \<open>The hook \<open>after\<close> a step, with the three state cells as they were \<open>before\<close> it.\<close>

definition discard_updates :: "hook \<Rightarrow> hook \<Rightarrow> hook" where
  "discard_updates before after =
     after\<lparr> usage := usage before, isAvailable := isAvailable before,
            isLoading := isLoading before \<rparr>"

fun react_step :: "component \<Rightarrow> event \<Rightarrow> component" where
  "react_step c Start = \<lparr> mounted = True, hookState = start (hookState c) \<rparr>"
| "react_step c Stop = \<lparr> mounted = False, hookState = stop (hookState c) \<rparr>"
| "react_step c Tick = c\<lparr> hookState := tick (hookState c) \<rparr>"
| "react_step c Refresh = c\<lparr> hookState := refresh (hookState c) \<rparr>"
| "react_step c (Settle r) =
     (if mounted c then c\<lparr> hookState := settle r (hookState c) \<rparr>
      else c\<lparr> hookState := discard_updates (hookState c) (settle r (hookState c)) \<rparr>)"

definition react_run :: "event list \<Rightarrow> component \<Rightarrow> component" where
  "react_run evs c = foldl react_step c evs"

section \<open>AnalyticsPanel.tsx: the aggregated statistics\<close>

text \<open>Session records as the panel reads them. \<open>hidden\<close> is an optional
  boolean and \<open>tokenUsage\<close> and \<open>usageDelta\<close> are optional objects
  (\<open>None\<close> when missing). The field \<open>totalTokens\<close> of a session's
  token usage is named \<open>sessionTotalTokens\<close> here, the statistics keep the name; a
  session's \<open>id\<close> is \<open>sessionId\<close>. Deltas are real numbers.\<close>

record SessionUsageDelta =
  fiveHourDelta :: real
  sevenDayDelta :: real
  sevenDayOpusDelta :: "real option"

record SessionTokenUsage =
  inputTokens :: int
  outputTokens :: int
  sessionTotalTokens :: int
  contextTokens :: int
  costUsd :: real
  usageDelta :: "SessionUsageDelta option"

record SessionMeta =
  sessionId :: string
  hidden :: "bool option"
  tokenUsage :: "SessionTokenUsage option"

record AggregateStats =
  totalSessions :: nat
  sessionsWithUsage :: nat
  totalFiveHourDelta :: real
  totalSevenDayDelta :: real
  totalTokens :: int
  topSessions :: "SessionMeta list"

text \<open>The truthiness of \<open>s.hidden\<close>: a missing flag is falsy.\<close>

definition is_hidden :: "SessionMeta \<Rightarrow> bool" where
  "is_hidden s = (case hidden s of Some b \<Rightarrow> b | None \<Rightarrow> False)"

text \<open>The truthiness of \<open>s.tokenUsage?.usageDelta\<close>: an object is truthy.\<close>

definition has_usageDelta :: "SessionMeta \<Rightarrow> bool" where
  "has_usageDelta s =
     (case tokenUsage s of
        None \<Rightarrow> False
      | Some tu \<Rightarrow> (case usageDelta tu of None \<Rightarrow> False | Some d \<Rightarrow> True))"

text \<open>\<open>s.tokenUsage?.usageDelta?.fiveHourDelta ?? 0\<close>\<close>

definition fiveHourDelta_of :: "SessionMeta \<Rightarrow> real" where
  "fiveHourDelta_of s =
     (case tokenUsage s of
        None \<Rightarrow> 0
      | Some tu \<Rightarrow> (case usageDelta tu of None \<Rightarrow> 0 | Some d \<Rightarrow> fiveHourDelta d))"

text \<open>\<open>x || 0\<close> on a number: a falsy number is replaced by 0.\<close>

definition or_zero :: "'a::zero \<Rightarrow> 'a" where
  "or_zero x = (if x = 0 then 0 else x)"

text \<open>The running totals of the \<open>for\<close> loop, in the order
  \<open>totalFiveHourDelta\<close>, \<open>totalSevenDayDelta\<close>, \<open>totalTokens\<close>,
  \<open>sessionsWithUsage\<close>, and one pass of its body. The sums are exact; the code adds
  IEEE doubles, which agree with them as long as every partial sum is a double (token counts
  below \<open>2^53\<close>, for one). Nothing below rests on the value of a sum beyond such
  cases.\<close>

type_synonym totals = "real \<times> real \<times> int \<times> nat"

fun loop_body :: "totals \<Rightarrow> SessionMeta \<Rightarrow> totals" where
  "loop_body (f5, d7, tok, n) session =
     (case tokenUsage session of
        None \<Rightarrow> (f5, d7, tok, n)
      | Some tu \<Rightarrow>
          (case usageDelta tu of
             None \<Rightarrow> (f5, d7, tok + or_zero (sessionTotalTokens tu), n)
           | Some d \<Rightarrow>
               (f5 + or_zero (fiveHourDelta d), d7 + or_zero (sevenDayDelta d),
                tok + or_zero (sessionTotalTokens tu), n + 1)))"

text \<open>The comparator handed to \<open>sort\<close>.\<close>

definition compareFn :: "SessionMeta \<Rightarrow> SessionMeta \<Rightarrow> real" where
  "compareFn a b = fiveHourDelta_of b - fiveHourDelta_of a"

text \<open>\<open>Array.prototype.sort\<close> with a comparator, which ECMAScript requires
  to be stable: an insertion sort that puts an element before the first one it does not
  compare greater than, so that elements that compare equal keep their order.\<close>

fun insert_cmp :: "('a \<Rightarrow> 'a \<Rightarrow> real) \<Rightarrow> 'a \<Rightarrow> 'a list \<Rightarrow> 'a list" where
  "insert_cmp c x [] = [x]"
| "insert_cmp c x (y # ys) = (if c x y \<le> 0 then x # y # ys else y # insert_cmp c x ys)"

fun js_sort :: "('a \<Rightarrow> 'a \<Rightarrow> real) \<Rightarrow> 'a list \<Rightarrow> 'a list" where
  "js_sort c [] = []"
| "js_sort c (x # xs) = insert_cmp c x (js_sort c xs)"

text \<open>\<open>sessions\<close>: the values of the session map, without the hidden ones.\<close>

definition visible :: "SessionMeta list \<Rightarrow> SessionMeta list" where
  "visible sessionMetaMap = filter (\<lambda>s. \<not> is_hidden s) sessionMetaMap"

text \<open>\<open>sortedSessions\<close> before and after \<open>slice(0, 10)\<close>.\<close>

definition ranked :: "SessionMeta list \<Rightarrow> SessionMeta list" where
  "ranked sessionMetaMap = js_sort compareFn (filter has_usageDelta (visible sessionMetaMap))"

definition sortedSessions :: "SessionMeta list \<Rightarrow> SessionMeta list" where
  "sortedSessions sessionMetaMap = take 10 (ranked sessionMetaMap)"

text \<open>The memoised \<open>stats\<close>, from the values of the session map in its
  iteration order.\<close>

definition stats :: "SessionMeta list \<Rightarrow> AggregateStats" where
  "stats sessionMetaMap =
     (let sessions = visible sessionMetaMap;
          (f5, d7, tok, n) = foldl loop_body (0, 0, 0, 0) sessions
      in \<lparr> totalSessions = length sessions,
           sessionsWithUsage = n,
           totalFiveHourDelta = f5,
           totalSevenDayDelta = d7,
           totalTokens = tok,
           topSessions = sortedSessions sessionMetaMap \<rparr>)"

section \<open>Auxiliary notions for the statements\<close>

text \<open>The spec's example payload and the snapshot it normalizes to.\<close>

definition payload42 :: ClaudeUsageApiResponse where
  "payload42 =
     \<lparr> five_hour = Val \<lparr> raw_utilization = Val 42, resets_at = Val ''T'' \<rparr>,
       seven_day = Val \<lparr> raw_utilization = Val 0, resets_at = Null \<rparr>,
       seven_day_opus = Undefined, seven_day_oauth_apps = Undefined \<rparr>"

text \<open>A payload with an Opus window.\<close>

definition payload_opus :: ClaudeUsageApiResponse where
  "payload_opus =
     \<lparr> five_hour = Val \<lparr> raw_utilization = Val 42, resets_at = Val ''T'' \<rparr>,
       seven_day = Val \<lparr> raw_utilization = Undefined, resets_at = Null \<rparr>,
       seven_day_opus = Val \<lparr> raw_utilization = Val 7, resets_at = Undefined \<rparr>,
       seven_day_oauth_apps = Null \<rparr>"

definition snapshot42 :: ClaudeUsageData where
  "snapshot42 =
     \<lparr> fiveHour = \<lparr> utilization = 42, resetsAt = Some ''T'' \<rparr>,
       sevenDay = \<lparr> utilization = 0, resetsAt = None \<rparr>,
       sevenDayOpus = None \<rparr>"

text \<open>The hook of an eligible user after its first fetch has stored a snapshot.\<close>

definition eligible_state :: hook where
  "eligible_state = run [Start, Settle (Resolved (Some snapshot42))] useClaudeUsage_init"

text \<open>A transport failure: \<open>fetch\<close> rejects, or the body of a successful
  response is not JSON.\<close>

definition transport_failure :: "fetch_result \<Rightarrow> bool" where
  "transport_failure r =
     (case r of
        NetworkFailure \<Rightarrow> True
      | Response status body \<Rightarrow> response_ok status \<and> body = MalformedJson)"

text \<open>The spec's contract for one window that is present in the payload: a missing (or
  \<open>null\<close>) utilization is 0, a missing or \<open>null\<close> reset instant is
  absent.\<close>

definition spec_window :: "ApiUsageWindow \<Rightarrow> UsageWindow" where
  "spec_window w =
     \<lparr> utilization = (case raw_utilization w of Val u \<Rightarrow> u | Undefined \<Rightarrow> 0 | Null \<Rightarrow> 0),
       resetsAt = (case resets_at w of Val t \<Rightarrow> Some t | Undefined \<Rightarrow> None | Null \<Rightarrow> None) \<rparr>"



fun is_settle :: "event \<Rightarrow> bool" where
  "is_settle (Settle r) = True"
| "is_settle e = False"


text \<open>A session is ranked when it is not hidden and has a usage delta.\<close>

definition eligible :: "SessionMeta \<Rightarrow> bool" where
  "eligible s = (\<not> is_hidden s \<and> has_usageDelta s)"

text \<open>\<open>a\<close> may stand before \<open>b\<close> in a list ordered by
  \<open>fiveHourDelta\<close> descending.\<close>

definition desc :: "SessionMeta \<Rightarrow> SessionMeta \<Rightarrow> bool" where
  "desc a b = (fiveHourDelta_of b \<le> fiveHourDelta_of a)"

text \<open>Example sessions: an identifier, the hidden flag, the total tokens, and the
  five-hour and seven-day deltas when there is a usage delta.\<close>

definition mk_session :: "string \<Rightarrow> bool option \<Rightarrow> int \<Rightarrow> (real \<times> real) option \<Rightarrow> SessionMeta" where
  "mk_session i h tok d =
     \<lparr> sessionId = i, hidden = h,
       tokenUsage = Some
         \<lparr> inputTokens = tok, outputTokens = 0, sessionTotalTokens = tok, contextTokens = 0,
           costUsd = 0,
           usageDelta =
             (case d of None \<Rightarrow> None
              | Some (f5, d7) \<Rightarrow>
                  Some \<lparr> fiveHourDelta = f5, sevenDayDelta = d7, sevenDayOpusDelta = None \<rparr>) \<rparr> \<rparr>"

definition sA :: SessionMeta where
  "sA = mk_session ''a'' None 100 (Some (5, 1))"

definition sB :: SessionMeta where
  "sB = mk_session ''b'' (Some True) 1000 (Some (9, 9))"

definition sC :: SessionMeta where
  "sC = mk_session ''c'' (Some False) 10 (Some (7, 2))"

definition sD :: SessionMeta where
  "sD = mk_session ''d'' None 1 None"

definition sE :: SessionMeta where
  "sE = mk_session ''e'' None 20 (Some (5, 3))"

definition numbered :: "nat \<Rightarrow> SessionMeta" where
  "numbered n = mk_session ''s'' None (int n) (Some (real n, 0))"

section \<open>Auxiliary lemmas\<close>

lemma coalesce_simps:
  "coalesce Undefined d = d" "coalesce Null d = d" "coalesce (Val v) d = v"
  by (simp_all add: coalesce_def)

lemma opt_chain_simps:
  "opt_chain Undefined f = Undefined" "opt_chain Null f = Undefined" "opt_chain (Val w) f = f w"
  by (simp_all add: opt_chain_def)

lemma window_spec:
  "\<lparr> utilization = coalesce (raw_utilization w) 0, resetsAt = nullish (resets_at w) \<rparr> = spec_window w"
  by (cases "raw_utilization w"; cases "resets_at w") (simp_all add: spec_window_def coalesce_simps)

lemma eligible_state_eq:
  "eligible_state =
     \<lparr> usage = Some snapshot42, isLoading = False, isAvailable = True,
       pollIntervalRef = Some 1, timers = [1], nextHandle = 2, fetchCalls = 1, inFlight = 0,
       console = [] \<rparr>"
  by (simp add: eligible_state_def run_def start_def settle_def call_fetchUsage_def
      fetchUsage_def useClaudeUsage_init_def Let_def)

lemma settle_call:
  "usage (settle b (call_fetchUsage s)) = applied b"
  "isAvailable (settle b (call_fetchUsage s)) = (applied b \<noteq> None)"
  "isLoading (settle b (call_fetchUsage s)) = False"
  "console (settle (Resolved d) (call_fetchUsage s)) = console s"
  by (cases b; simp add: settle_def call_fetchUsage_def fetchUsage_def applied_def)+

lemma poll_cycle_snd:
  "snd (poll_cycle bridge r s) = settle (bridge (snd (fetchClaudeUsage r))) (call_fetchUsage s)"
  by (simp add: poll_cycle_def)

lemma applied_getClaudeUsage: "applied (getClaudeUsage d) = d"
  by (simp add: applied_def getClaudeUsage_def)

lemma fetchClaudeUsage_throw:
  "fetch_try r = Inl e \<Longrightarrow>
     fetchClaudeUsage r = ([ConsoleError ''[claude-usage] Failed to fetch usage:''], None)"
  by (simp add: fetchClaudeUsage_def)

lemma calls_funpow:
  "(call_fetchUsage ^^ n) s = s\<lparr> fetchCalls := fetchCalls s + n, inFlight := inFlight s + n \<rparr>"
  by (induction n arbitrary: s) (simp_all add: call_fetchUsage_def)

lemma tick_eq:
  "tick s = s\<lparr> fetchCalls := fetchCalls s + length (timers s),
              inFlight := inFlight s + length (timers s) \<rparr>"
  by (simp add: tick_def calls_funpow)

lemma run_Nil: "run [] s = s"
  by (simp add: run_def)

lemma run_Cons: "run (e # evs) s = run evs (step s e)"
  by (simp add: run_def)















lemma react_run_snoc: "react_run (evs @ [e]) c = react_step (react_run evs c) e"
  by (simp add: react_run_def)










lemma isLoading_step_quiet: "\<not> is_settle e \<Longrightarrow> isLoading (step s e) = isLoading s"
  by (cases e) (simp_all add: start_def stop_def tick_eq refresh_def call_fetchUsage_def Let_def
      split: option.splits)

lemma isLoading_step_False: "\<not> isLoading s \<Longrightarrow> \<not> isLoading (step s e)"
proof (cases "is_settle e")
  case False
  assume "\<not> isLoading s"
  with False show ?thesis by (simp add: isLoading_step_quiet)
next
  case True
  assume l: "\<not> isLoading s"
  from True obtain r where e: "e = Settle r" by (cases e) simp_all
  from l show ?thesis by (cases r) (simp_all add: e settle_def fetchUsage_def)
qed

lemma isLoading_run_quiet:
  "list_all (\<lambda>e. \<not> is_settle e) evs \<Longrightarrow> isLoading (run evs s) = isLoading s"
  by (induction evs arbitrary: s) (simp_all add: run_Nil run_Cons isLoading_step_quiet)

lemma isLoading_run_False: "\<not> isLoading s \<Longrightarrow> \<not> isLoading (run evs s)"
  by (induction evs arbitrary: s) (simp_all add: run_Nil run_Cons isLoading_step_False)

lemma mset_insert_cmp: "mset (insert_cmp c x xs) = add_mset x (mset xs)"
  by (induction xs) simp_all

lemma mset_js_sort: "mset (js_sort c xs) = mset xs"
  by (induction xs) (simp_all add: mset_insert_cmp)

lemma set_insert_cmp: "set (insert_cmp c x xs) = insert x (set xs)"
  using mset_insert_cmp [of c x xs, THEN arg_cong, of set_mset] by simp

lemma sorted_insert_cmp:
  "sorted_wrt desc xs \<Longrightarrow> sorted_wrt desc (insert_cmp compareFn x xs)"
  by (induction xs) (auto simp: set_insert_cmp desc_def compareFn_def)

lemma sorted_js_sort: "sorted_wrt desc (js_sort compareFn xs)"
  by (induction xs) (simp_all add: sorted_insert_cmp)

lemma filter_insert_cmp:
  "filter (\<lambda>s. fiveHourDelta_of s = k) (insert_cmp compareFn x xs) =
     filter (\<lambda>s. fiveHourDelta_of s = k) (x # xs)"
  by (induction xs) (auto simp: compareFn_def)

lemma filter_js_sort:
  "filter (\<lambda>s. fiveHourDelta_of s = k) (js_sort compareFn xs) =
     filter (\<lambda>s. fiveHourDelta_of s = k) xs"
  by (induction xs) (simp_all add: filter_insert_cmp)

lemma eligible_filter: "filter has_usageDelta (visible ss) = filter eligible ss"
  by (induction ss) (simp_all add: visible_def eligible_def)

lemma topSessions_stats: "topSessions (stats ss) = take 10 (ranked ss)"
  by (simp add: stats_def sortedSessions_def Let_def split: prod.splits)

lemma visible_hidden: "is_hidden h \<Longrightarrow> visible (xs @ h # ys) = visible (xs @ ys)"
  by (simp add: visible_def)

lemma sess_facts:
  "is_hidden sA = False" "is_hidden sB = True" "is_hidden sC = False" "is_hidden sD = False" "is_hidden sE = False"
  "has_usageDelta sA" "has_usageDelta sB" "has_usageDelta sC" "\<not> has_usageDelta sD" "has_usageDelta sE"
  "fiveHourDelta_of sA = 5" "fiveHourDelta_of sC = 7" "fiveHourDelta_of sE = 5"
  by (simp_all add: sA_def sB_def sC_def sD_def sE_def mk_session_def is_hidden_def has_usageDelta_def fiveHourDelta_of_def)

lemma ranked_example: "ranked [sA, sB, sC, sD, sE] = [sC, sA, sE]"
  by (simp add: ranked_def visible_def sess_facts compareFn_def)

lemma numbered_facts:
  "is_hidden (numbered n) = False" "has_usageDelta (numbered n)" "fiveHourDelta_of (numbered n) = real n"
  by (simp_all add: numbered_def mk_session_def is_hidden_def has_usageDelta_def fiveHourDelta_of_def)

lemma twelve_sessions: "topSessions (stats (map numbered [1, 2, 3, 4, 5, 6, 7, 8, 9, 10, 11, 12])) =
   map numbered [12, 11, 10, 9, 8, 7, 6, 5, 4, 3]"
  by (simp add: topSessions_stats ranked_def visible_def numbered_facts compareFn_def)

section \<open>The fetcher and the normalizer\<close>

text \<open>C4: For a successful response whose body is a JSON object nothing is thrown and
  the result is the normalized payload; a window that is present is normalized by the spec's
  contract (a missing utilization is 0, a missing or \<open>null\<close> reset instant is
  absent); and the snapshot has a \<open>sevenDayOpus\<close> window exactly when
  \<open>seven_day_opus\<close> is present and not \<open>null\<close>, and then it is that
  window normalized, never a zeroed one standing for a missing one.\<close>

theorem normalize_defaults_and_opus:
  "(response_ok status \<longrightarrow>
      fetch_try (Response status (JsonObject d)) = Inr (Some (normalize_usage d))) \<and>
   (five_hour d = Val w5 \<longrightarrow> fiveHour (normalize_usage d) = spec_window w5) \<and>
   (seven_day d = Val w7 \<longrightarrow> sevenDay (normalize_usage d) = spec_window w7) \<and>
   (seven_day_opus d = Val wo \<longrightarrow> sevenDayOpus (normalize_usage d) = Some (spec_window wo)) \<and>
   (sevenDayOpus (normalize_usage d) \<noteq> None \<longleftrightarrow> (\<exists>v. seven_day_opus d = Val v))"
proof -
  have a: "response_ok status \<longrightarrow>
      fetch_try (Response status (JsonObject d)) = Inr (Some (normalize_usage d))" by simp
  have b: "five_hour d = Val w5 \<longrightarrow> fiveHour (normalize_usage d) = spec_window w5"
    by (simp add: normalize_usage_def opt_chain_simps window_spec)
  have c: "seven_day d = Val w7 \<longrightarrow> sevenDay (normalize_usage d) = spec_window w7"
    by (simp add: normalize_usage_def opt_chain_simps window_spec)
  have e: "seven_day_opus d = Val wo \<longrightarrow> sevenDayOpus (normalize_usage d) = Some (spec_window wo)"
    by (simp add: normalize_usage_def window_spec)
  have f: "sevenDayOpus (normalize_usage d) \<noteq> None \<longleftrightarrow> (\<exists>v. seven_day_opus d = Val v)"
    by (cases "seven_day_opus d") (simp_all add: normalize_usage_def)
  from a b c e f show ?thesis by blast
qed

text \<open>A payload with all three windows, the weekly one without a utilization, the Opus
  one without a reset instant; and the spec's example payload: \<open>fiveHour\<close> is 42
  with reset \<open>T\<close>, \<open>sevenDay\<close> is 0 with no reset, and there is no
  Opus window.\<close>

theorem normalize_defaults_and_opus_witness:
  "response_ok 200 \<and>
   five_hour payload_opus = Val \<lparr> raw_utilization = Val 42, resets_at = Val ''T'' \<rparr> \<and>
   seven_day payload_opus = Val \<lparr> raw_utilization = Undefined, resets_at = Null \<rparr> \<and>
   seven_day_opus payload_opus = Val \<lparr> raw_utilization = Val 7, resets_at = Undefined \<rparr> \<and>
   fetch_try (Response 200 (JsonObject payload_opus)) = Inr (Some (normalize_usage payload_opus)) \<and>
   fiveHour (normalize_usage payload_opus) = \<lparr> utilization = 42, resetsAt = Some ''T'' \<rparr> \<and>
   sevenDay (normalize_usage payload_opus) = \<lparr> utilization = 0, resetsAt = None \<rparr> \<and>
   sevenDayOpus (normalize_usage payload_opus) = Some \<lparr> utilization = 7, resetsAt = None \<rparr> \<and>
   normalize_usage payload42 = snapshot42 \<and> sevenDayOpus (normalize_usage payload42) = None"
proof -
  have ok: "response_ok 200" by (simp add: response_ok_def)
  have n: "normalize_usage payload42 = snapshot42"
    by (simp add: normalize_usage_def payload42_def snapshot42_def opt_chain_simps coalesce_simps)
  have o: "sevenDayOpus (normalize_usage payload42) = None"
    by (simp add: n snapshot42_def)
  from normalize_defaults_and_opus
    [where status = 200 and d = payload_opus
       and ?w5.0 = "\<lparr> raw_utilization = Val 42, resets_at = Val ''T'' \<rparr>"
       and ?w7.0 = "\<lparr> raw_utilization = Undefined, resets_at = Null \<rparr>"
       and wo = "\<lparr> raw_utilization = Val 7, resets_at = Undefined \<rparr>"]
    ok n o
  show ?thesis by (simp add: payload_opus_def spec_window_def)
qed

text \<open>C10: For a successful response whose body is a JSON object the fetcher neither
  throws nor logs, also when \<open>five_hour\<close> or \<open>seven_day\<close> is missing
  (or \<open>null\<close>): that window of the snapshot then has utilization 0 and no reset
  instant.\<close>

theorem missing_window_defaults:
  "(response_ok status \<longrightarrow>
      fetchClaudeUsage (Response status (JsonObject d)) = ([], Some (normalize_usage d))) \<and>
   (nullish (five_hour d) = None \<longrightarrow>
      fiveHour (normalize_usage d) = \<lparr> utilization = 0, resetsAt = None \<rparr>) \<and>
   (nullish (seven_day d) = None \<longrightarrow>
      sevenDay (normalize_usage d) = \<lparr> utilization = 0, resetsAt = None \<rparr>)"
proof -
  have a: "response_ok status \<longrightarrow>
      fetchClaudeUsage (Response status (JsonObject d)) = ([], Some (normalize_usage d))"
    by (simp add: fetchClaudeUsage_def)
  have b: "nullish (five_hour d) = None \<longrightarrow>
      fiveHour (normalize_usage d) = \<lparr> utilization = 0, resetsAt = None \<rparr>"
    by (simp add: normalize_usage_def opt_chain_def coalesce_def)
  have c: "nullish (seven_day d) = None \<longrightarrow>
      sevenDay (normalize_usage d) = \<lparr> utilization = 0, resetsAt = None \<rparr>"
    by (simp add: normalize_usage_def opt_chain_def coalesce_def)
  from a b c show ?thesis by blast
qed

text \<open>The empty JSON object.\<close>

theorem missing_window_defaults_witness:
  "response_ok 200 \<and> nullish (five_hour no_properties) = None \<and>
   nullish (seven_day no_properties) = None \<and>
   fetchClaudeUsage (Response 200 (JsonObject no_properties)) =
     ([], Some \<lparr> fiveHour = \<lparr> utilization = 0, resetsAt = None \<rparr>,
                 sevenDay = \<lparr> utilization = 0, resetsAt = None \<rparr>,
                 sevenDayOpus = None \<rparr>)"
proof -
  have ok: "response_ok 200" by (simp add: response_ok_def)
  have o: "sevenDayOpus (normalize_usage no_properties) = None"
    by (simp add: normalize_usage_def no_properties_def)
  have eq: "normalize_usage no_properties =
     \<lparr> fiveHour = fiveHour (normalize_usage no_properties), sevenDay = sevenDay (normalize_usage no_properties),
       sevenDayOpus = sevenDayOpus (normalize_usage no_properties) \<rparr>" by simp
  from missing_window_defaults [of 200 no_properties] ok o eq show ?thesis
    by (simp add: no_properties_def)
qed

text \<open>C5: a response with status 401 or 403 makes the fetcher return \<open>null\<close> as
  an ordinary value: nothing is thrown inside the \<open>try\<close> block and the fetcher logs
  nothing; with a bridge that resolves to this \<open>null\<close>, the hook logs nothing either
  and sets availability to false (and the snapshot to \<open>null\<close>).\<close>

theorem not_eligible_is_ordinary_value:
  assumes "status = 401 \<or> status = 403" and "bridge None = Resolved None"
  shows "fetch_try (Response status body) = Inr None \<and>
         fetchClaudeUsage (Response status body) = ([], None) \<and>
         fst (poll_cycle bridge (Response status body) s) = [] \<and>
         console (snd (poll_cycle bridge (Response status body) s)) = console s \<and>
         isAvailable (snd (poll_cycle bridge (Response status body) s)) = False \<and>
         usage (snd (poll_cycle bridge (Response status body) s)) = None"
proof -
  from assms(1) have "\<not> response_ok status" by (auto simp: response_ok_def)
  with assms(1) have t: "fetch_try (Response status body) = Inr None" by auto
  then have f: "fetchClaudeUsage (Response status body) = ([], None)"
    by (simp add: fetchClaudeUsage_def)
  have a: "applied (Resolved None) = None" by (simp add: applied_def)
  from t f a assms(2) show ?thesis
    by (simp add: poll_cycle_snd settle_call) (simp add: poll_cycle_def)
qed

text \<open>Status 403, for a hook that was available, with the bridge that passes the
  fetcher's value through.\<close>

theorem not_eligible_is_ordinary_value_witness:
  "getClaudeUsage None = Resolved None \<and>
   fetchClaudeUsage (Response 403 JsonOther) = ([], None) \<and>
   isAvailable eligible_state \<and>
   \<not> isAvailable (snd (poll_cycle getClaudeUsage (Response 403 JsonOther) eligible_state))"
proof -
  have b: "getClaudeUsage None = Resolved None" by (simp add: getClaudeUsage_def)
  from not_eligible_is_ordinary_value
    [where bridge = getClaudeUsage and status = 403 and body = JsonOther
       and s = eligible_state, OF _ b] b
  show ?thesis
    by (simp add: eligible_state_eq)
qed

text \<open>C1, as the code has it: in a fetch cycle whose transport fails (\<open>fetch\<close>
  rejects, or the body of a successful response is not JSON), the fetcher logs one line at
  error level and resolves to \<open>null\<close> without throwing; then, whenever the bridge
  does not hand the hook a snapshot for the fetcher's \<open>null\<close>, the hook stores a
  \<open>null\<close> snapshot and sets availability to false and loading to false.\<close>

theorem transport_failure_clears_state:
  assumes "transport_failure r" and "applied (bridge None) = None"
  shows "fetchClaudeUsage r = ([ConsoleError ''[claude-usage] Failed to fetch usage:''], None) \<and>
         usage (snd (poll_cycle bridge r s)) = None \<and>
         isAvailable (snd (poll_cycle bridge r s)) = False \<and>
         isLoading (snd (poll_cycle bridge r s)) = False"
proof -
  from assms(1) have "\<exists>e. fetch_try r = Inl e"
    by (auto simp: transport_failure_def split: fetch_result.splits)
  then obtain e where "fetch_try r = Inl e" ..
  from fetchClaudeUsage_throw [OF this] assms(2) show ?thesis
    by (simp add: poll_cycle_snd settle_call)
qed

text \<open>A successful response with a malformed body, for a hook that holds a snapshot, with
  the bridge that passes the fetcher's value through.\<close>

theorem transport_failure_clears_state_witness:
  "transport_failure (Response 200 MalformedJson) \<and>
   applied (getClaudeUsage None) = None \<and>
   usage (snd (poll_cycle getClaudeUsage (Response 200 MalformedJson) eligible_state)) = None \<and>
   isAvailable (snd (poll_cycle getClaudeUsage (Response 200 MalformedJson) eligible_state)) = False"
proof -
  have h: "transport_failure (Response 200 MalformedJson)"
    by (simp add: transport_failure_def response_ok_def)
  have b: "applied (getClaudeUsage None) = None" by (simp add: applied_getClaudeUsage)
  from transport_failure_clears_state [where bridge = getClaudeUsage and s = eligible_state, OF h b] h b
  show ?thesis by simp
qed

text \<open>C1 as stated fails: a network failure in a cycle of an eligible user's hook, which
  holds a snapshot and is available, leaves the snapshot \<open>null\<close> and the hook
  unavailable.\<close>

theorem transport_failure_demotes_counterexample:
  "usage eligible_state = Some snapshot42 \<and>
   usage (snd (poll_cycle getClaudeUsage NetworkFailure eligible_state)) = None \<and>
   isAvailable eligible_state \<and>
   \<not> isAvailable (snd (poll_cycle getClaudeUsage NetworkFailure eligible_state))"
  by (simp add: poll_cycle_snd settle_call applied_getClaudeUsage fetchClaudeUsage_def)
     (simp add: eligible_state_eq)

text \<open>C2, as the code has it: a response with a non-success status other than 401 and
  403 makes the \<open>try\<close> block throw; the fetcher logs one line at error level and
  resolves to \<open>null\<close>; then, whenever the bridge does not hand the hook a snapshot for
  the fetcher's \<open>null\<close>, the hook stores a \<open>null\<close> snapshot in place of any
  earlier one and sets availability to false and loading to false.\<close>

theorem http_error_clears_state:
  assumes "\<not> response_ok status" and "status \<noteq> 401" and "status \<noteq> 403"
    and "applied (bridge None) = None"
  shows "fetch_try (Response status body) = Inl (UsageApiError status) \<and>
         fetchClaudeUsage (Response status body) =
           ([ConsoleError ''[claude-usage] Failed to fetch usage:''], None) \<and>
         usage (snd (poll_cycle bridge (Response status body) s)) = None \<and>
         isAvailable (snd (poll_cycle bridge (Response status body) s)) = False \<and>
         isLoading (snd (poll_cycle bridge (Response status body) s)) = False"
proof -
  from assms have t: "fetch_try (Response status body) = Inl (UsageApiError status)" by simp
  from t fetchClaudeUsage_throw [OF t] assms(4) show ?thesis
    by (simp add: poll_cycle_snd settle_call)
qed

text \<open>Status 500, for a hook that holds a snapshot, with the bridge that passes the
  fetcher's value through.\<close>

theorem http_error_clears_state_witness:
  "\<not> response_ok 500 \<and>
   applied (getClaudeUsage None) = None \<and>
   fetch_try (Response 500 JsonOther) = Inl (UsageApiError 500) \<and>
   usage (snd (poll_cycle getClaudeUsage (Response 500 JsonOther) eligible_state)) = None"
proof -
  have h: "\<not> response_ok 500" by (simp add: response_ok_def)
  have b: "applied (getClaudeUsage None) = None" by (simp add: applied_getClaudeUsage)
  from http_error_clears_state
    [where bridge = getClaudeUsage and body = JsonOther and s = eligible_state, OF h _ _ b] h b
  show ?thesis by simp
qed

text \<open>C2 as stated fails: status 500 in a cycle of a hook that holds a snapshot and is
  available leaves the snapshot \<open>null\<close> and the hook unavailable.\<close>

theorem http_error_clears_snapshot_counterexample:
  "\<not> response_ok 500 \<and>
   usage eligible_state = Some snapshot42 \<and>
   usage (snd (poll_cycle getClaudeUsage (Response 500 JsonOther) eligible_state)) = None \<and>
   isAvailable eligible_state \<and>
   \<not> isAvailable (snd (poll_cycle getClaudeUsage (Response 500 JsonOther) eligible_state))"
  by (simp add: poll_cycle_snd settle_call applied_getClaudeUsage fetchClaudeUsage_def
      response_ok_def)
     (simp add: eligible_state_eq)

section \<open>The lifecycle of the poller\<close>





text \<open>C9: The loading flag starts true and stays true as long as no fetch has settled;
  it is false once a fetch in flight settles, whatever the outcome (a snapshot,
  \<open>null\<close> or a rejection), and false after any further events: interval ticks,
  manual refreshes, further settled fetches, stops and starts.\<close>

theorem loading_flag_settles_once:
  "isLoading useClaudeUsage_init \<and>
   (list_all (\<lambda>e. \<not> is_settle e) evs \<longrightarrow> isLoading (run evs useClaudeUsage_init)) \<and>
   (0 < inFlight s \<longrightarrow> \<not> isLoading (settle r s) \<and> \<not> isLoading (run evs' (settle r s)))"
proof -
  have a: "isLoading useClaudeUsage_init" by (simp add: useClaudeUsage_init_def)
  have b: "list_all (\<lambda>e. \<not> is_settle e) evs \<longrightarrow> isLoading (run evs useClaudeUsage_init)"
    using a by (simp add: isLoading_run_quiet)
  have c: "0 < inFlight s \<longrightarrow> \<not> isLoading (settle r s)"
    by (cases r) (simp_all add: settle_def fetchUsage_def)
  from a b c isLoading_run_False show ?thesis by blast
qed

text \<open>A start followed by a tick and a refresh leaves the flag true; once the initial
  fetch is rejected the flag is false, also after a tick, a refresh, a stop and a start.\<close>

theorem loading_flag_settles_once_witness:
  "list_all (\<lambda>e. \<not> is_settle e) [Start, Tick, Refresh] \<and>
   isLoading (run [Start, Tick, Refresh] useClaudeUsage_init) \<and>
   0 < inFlight (start useClaudeUsage_init) \<and>
   \<not> isLoading (run [Tick, Refresh, Stop, Start] (settle Rejected (start useClaudeUsage_init)))"
proof -
  have fl: "0 < inFlight (start useClaudeUsage_init)"
    by (simp add: start_def call_fetchUsage_def useClaudeUsage_init_def Let_def)
  from loading_flag_settles_once [of "[Start, Tick, Refresh]" "start useClaudeUsage_init" Rejected
      "[Tick, Refresh, Stop, Start]"] fl
  show ?thesis by simp
qed

section \<open>The session aggregator\<close>

text \<open>C3: For every collection of session records, \<open>topSessions\<close> is the
  first 10 entries of a list that holds exactly the sessions that are not hidden and have a
  usage delta (each as often as the collection does), that is ordered by
  \<open>fiveHourDelta\<close> descending, and in which the sessions of any one
  \<open>fiveHourDelta\<close> stand in their original order; it has at most 10 entries, and
  no hidden session and no session without a usage delta is in it.\<close>

theorem topSessions_ranking:
  "topSessions (stats ss) = take 10 (ranked ss) \<and>
   mset (ranked ss) = mset (filter eligible ss) \<and>
   sorted_wrt desc (ranked ss) \<and>
   filter (\<lambda>s. fiveHourDelta_of s = k) (ranked ss) =
     filter (\<lambda>s. fiveHourDelta_of s = k) (filter eligible ss) \<and>
   length (topSessions (stats ss)) \<le> 10 \<and>
   (\<forall>s \<in> set (topSessions (stats ss)). has_usageDelta s \<and> \<not> is_hidden s)"
proof -
  have r: "ranked ss = js_sort compareFn (filter eligible ss)"
    by (simp add: ranked_def eligible_filter)
  have m: "mset (ranked ss) = mset (filter eligible ss)"
    by (simp add: r mset_js_sort)
  have s: "sorted_wrt desc (ranked ss)"
    by (simp add: r sorted_js_sort)
  have f: "filter (\<lambda>s. fiveHourDelta_of s = k) (ranked ss) =
     filter (\<lambda>s. fiveHourDelta_of s = k) (filter eligible ss)"
    by (simp only: r filter_js_sort)
  have l: "length (topSessions (stats ss)) \<le> 10"
    by (simp add: topSessions_stats)
  have "set (ranked ss) = set (filter eligible ss)"
    using m by (metis set_mset_mset)
  then have "\<forall>s \<in> set (ranked ss). eligible s" by simp
  then have e: "\<forall>s \<in> set (topSessions (stats ss)). has_usageDelta s \<and> \<not> is_hidden s"
    unfolding topSessions_stats eligible_def by (meson in_set_takeD)
  from topSessions_stats m s f l e show ?thesis by blast
qed

text \<open>Five sessions, one hidden and one without a usage delta, two with equal deltas;
  and the spec's twelve sessions with distinct deltas, of which the ten largest remain.\<close>

theorem topSessions_ranking_witness:
  "topSessions (stats [sA, sB, sC, sD, sE]) = [sC, sA, sE] \<and>
   filter (\<lambda>s. fiveHourDelta_of s = 5) (ranked [sA, sB, sC, sD, sE]) = [sA, sE] \<and>
   topSessions (stats (map numbered [1, 2, 3, 4, 5, 6, 7, 8, 9, 10, 11, 12])) =
     map numbered [12, 11, 10, 9, 8, 7, 6, 5, 4, 3]"
  using topSessions_ranking [of "[sA, sB, sC, sD, sE]" 5] twelve_sessions
  by (simp add: ranked_example eligible_def sess_facts)

text \<open>C8: A hidden session contributes nothing: for every collection of sessions, with a
  session flagged hidden added at any place, whatever its token usage and usage delta, the
  statistics are the same in every field.\<close>

theorem hidden_session_contributes_nothing:
  assumes "is_hidden h"
  shows "stats (xs @ h # ys) = stats (xs @ ys)"
  by (simp add: stats_def sortedSessions_def ranked_def visible_hidden [OF assms])

text \<open>A hidden session with 1000 tokens and deltas of 9 between two visible ones.\<close>

theorem hidden_session_contributes_nothing_witness:
  "is_hidden sB \<and> stats ([sA] @ sB # [sC]) = stats ([sA] @ [sC]) \<and>
   totalTokens (stats [sA, sB, sC]) = 110 \<and> totalSessions (stats [sA, sB, sC]) = 2 \<and>
   totalFiveHourDelta (stats [sA, sB, sC]) = 12 \<and> sessionsWithUsage (stats [sA, sB, sC]) = 2"
proof -
  have h: "is_hidden sB" by (simp add: sess_facts)
  have v: "stats ([sA] @ [sC]) = \<lparr> totalSessions = 2, sessionsWithUsage = 2, totalFiveHourDelta = 12,
     totalSevenDayDelta = 3, totalTokens = 110, topSessions = [sC, sA] \<rparr>"
    by (simp add: stats_def visible_def sess_facts sortedSessions_def ranked_def compareFn_def)
       (simp add: sA_def sC_def mk_session_def or_zero_def)
  from hidden_session_contributes_nothing [OF h, of "[sA]" "[sC]"] h v show ?thesis by simp
qed

end
